theory Spec2Isabelle
  imports Main "HOL-Library.Word"
begin

section \<open>Strings\<close>

text \<open>
  A Python \<open>str\<close> is a sequence of Unicode code points; it is modelled as a list of
  natural numbers, one per code point. \<open>str_of\<close> turns an ASCII literal of the
  source into that representation.
\<close>

type_synonym pystr = "nat list"

definition str_of :: "string \<Rightarrow> pystr" where
  "str_of s = map of_char s"

text \<open>
  The code points \<open>str.split()\<close> treats as separators (those for which
  \<open>str.isspace\<close> holds).
\<close>

definition isspace :: "nat \<Rightarrow> bool" where
  "isspace c \<longleftrightarrow>
     (9 \<le> c \<and> c \<le> 13) \<or> (28 \<le> c \<and> c \<le> 32) \<or> c = 133 \<or> c = 160 \<or>
     c = 5760 \<or> (8192 \<le> c \<and> c \<le> 8202) \<or> c = 8232 \<or> c = 8233 \<or>
     c = 8239 \<or> c = 8287 \<or> c = 12288"

text \<open>
  \<open>text.split()\<close> with no argument: the maximal runs of non-space code points, in
  order; runs of separators, and separators at either end, give no empty word.
  \<open>words_from cur s\<close> scans \<open>s\<close> with the word read so far in \<open>cur\<close>.
\<close>

fun words_from :: "pystr \<Rightarrow> pystr \<Rightarrow> pystr list" where
  "words_from cur [] = (if cur = [] then [] else [cur])"
| "words_from cur (c # cs) =
     (if isspace c
      then (if cur = [] then words_from [] cs else cur # words_from [] cs)
      else words_from (cur @ [c]) cs)"

definition split :: "pystr \<Rightarrow> pystr list" where
  "split text = words_from [] text"

text \<open>\<open>sep.join(xs)\<close>.\<close>

fun join :: "pystr \<Rightarrow> pystr list \<Rightarrow> pystr" where
  "join sep [] = []"
| "join sep [x] = x"
| "join sep (x # y # ys) = x @ sep @ join sep (y # ys)"

section \<open>The worker thread object\<close>

text \<open>
  Exceptions. \<open>AttributeError\<close> is Python's own, raised on reading an attribute that
  was never assigned; \<open>RecognizerError\<close> stands for whatever
  \<open>KaldiRecognizer.AcceptWaveform\<close> raises. \<open>NotRunningError\<close> and
  \<open>AlreadyRunningError\<close> are the names the specification uses; no statement of the
  source raises them.
\<close>

datatype exn = AttributeError | RecognizerError | NotRunningError | AlreadyRunningError

text \<open>
  Where the thread of an \<open>AudioProcessingThread\<close> stands: constructed and not yet
  started; inside \<open>run\<close>, with the two locals of \<open>run\<close> (the recognizer and
  \<open>transcription\<close>); returned from \<open>run\<close>; or left \<open>run\<close> by an exception.
\<close>

datatype 'd control = Created | InRun 'd pystr | Finished | Raised exn

record 'd thread =
  recording :: bool
  control :: "'d control"

text \<open>\<open>AudioProcessingThread.__init__\<close>: \<open>self.recording = True\<close>.\<close>

definition new_thread :: "'d thread" where
  "new_thread = \<lparr>recording = True, control = Created\<rparr>"

text \<open>\<open>QThread.isRunning\<close>: started and not yet finished.\<close>

fun isRunning :: "'d thread \<Rightarrow> bool" where
  "isRunning t = (case control t of InRun d tr \<Rightarrow> True | _ \<Rightarrow> False)"

text \<open>\<open>AudioProcessingThread.stop\<close>: \<open>self.recording = False\<close>.\<close>

definition thread_stop :: "'d thread \<Rightarrow> 'd thread" where
  "thread_stop t = t\<lparr>recording := False\<rparr>"

section \<open>The summarizer\<close>

text \<open>
  \<open>generate_summary(self, text)\<close>. The sumy library is not part of the repository:
  the three library lines (parse the text, build the \<open>LsaSummarizer\<close>, apply it to
  the document with a sentence count, and \<open>str\<close> of each sentence returned) are
  the parameter \<open>lsa\<close>, from the text and the count to the selected sentences.
\<close>

type_synonym summarizer = "pystr \<Rightarrow> nat \<Rightarrow> pystr list"

definition generate_summary :: "summarizer \<Rightarrow> 'd thread \<Rightarrow> pystr \<Rightarrow> pystr" where
  "generate_summary lsa self text =
     (if length (split text) < 10
      then str_of ''Summary: Not enough data for summarization.''
      else str_of ''Summary: '' @ join (str_of '' '') (lsa text 2))"

section \<open>The audio queue and the recognizer\<close>

text \<open>An audio block: \<open>bytes(indata)\<close>.\<close>

type_synonym frame = "8 word list"

text \<open>
  \<open>callback(indata, frames, time, status)\<close>: \<open>audio_queue.put(bytes(indata))\<close> on
  the global FIFO queue (the line printed to stderr on a status is not modelled).
\<close>

definition callback :: "frame \<Rightarrow> frame list \<Rightarrow> frame list" where
  "callback indata q = q @ [indata]"

text \<open>
  The vosk recognizer is not part of the repository. It is a parameter: a state type
  \<open>'d\<close> with the three operations \<open>run\<close> uses.
  \<^item> \<open>KaldiRecognizer\<close>: the state of \<open>vosk.KaldiRecognizer(self.model, 16000)\<close>;
  \<^item> \<open>AcceptWaveform d data\<close>: \<open>None\<close> when the call raises, else the boolean it
    returns and the recognizer's next state;
  \<^item> \<open>Result d\<close>: \<open>json.loads(recognizer.Result())\<close>, the parsed object as a map
    from keys to string values, and the recognizer's next state.
\<close>

record 'd recognizer =
  KaldiRecognizer :: 'd
  AcceptWaveform :: "'d \<Rightarrow> frame \<Rightarrow> (bool \<times> 'd) option"
  Result :: "'d \<Rightarrow> (pystr \<rightharpoonup> pystr) \<times> 'd"

text \<open>\<open>d.get(key, default)\<close>.\<close>

definition dict_get :: "(pystr \<rightharpoonup> pystr) \<Rightarrow> pystr \<Rightarrow> pystr \<Rightarrow> pystr" where
  "dict_get d key dflt = (case d key of None \<Rightarrow> dflt | Some v \<Rightarrow> v)"

section \<open>The worker's run\<close>

text \<open>The two signals of the worker, with the string each emission carries.\<close>

datatype notification = Transcription pystr | Summary pystr

text \<open>
  What \<open>run\<close> reads and writes: the thread object, the global queue, and the signals
  emitted so far (oldest first).
\<close>

record 'd ctx =
  worker :: "'d thread"
  queue :: "frame list"
  emitted :: "notification list"

text \<open>
  \<open>QThread.start\<close> and the first two lines of \<open>run\<close>: the recognizer is built and
  \<open>transcription = ""\<close>.
\<close>

definition thread_start :: "'d recognizer \<Rightarrow> 'd thread \<Rightarrow> 'd thread" where
  "thread_start vosk t = t\<lparr>control := InRun (KaldiRecognizer vosk) []\<rparr>"

text \<open>
  One test of \<open>while self.recording\<close> with what follows it. While the flag holds:
  an empty queue leaves everything as it is; otherwise the oldest block is taken and
  given to the recognizer, and when the recognizer reports a finished utterance its
  text and one space are appended to \<open>transcription\<close>, which is emitted. No statement
  of \<open>run\<close> catches an exception, so one raised by \<open>AcceptWaveform\<close> leaves
  \<open>run\<close>. Once the flag is false the loop is left: the summary of \<open>transcription\<close>
  is emitted and \<open>run\<close> returns. A thread that is not inside \<open>run\<close> does nothing.
\<close>

definition run_step :: "'d recognizer \<Rightarrow> summarizer \<Rightarrow> 'd ctx \<Rightarrow> 'd ctx" where
  "run_step vosk lsa c =
     (case control (worker c) of
        InRun d transcription \<Rightarrow>
          if recording (worker c) then
            (case queue c of
               [] \<Rightarrow> c
             | data # rest \<Rightarrow>
                 (case AcceptWaveform vosk d data of
                    None \<Rightarrow>
                      c\<lparr>queue := rest, worker := (worker c)\<lparr>control := Raised RecognizerError\<rparr>\<rparr>
                  | Some (False, d') \<Rightarrow>
                      c\<lparr>queue := rest, worker := (worker c)\<lparr>control := InRun d' transcription\<rparr>\<rparr>
                  | Some (True, d') \<Rightarrow>
                      (let (result, d'') = Result vosk d';
                           text = dict_get result (str_of ''text'') [];
                           transcription' = transcription @ text @ str_of '' ''
                       in c\<lparr>queue := rest,
                            worker := (worker c)\<lparr>control := InRun d'' transcription'\<rparr>,
                            emitted := emitted c @ [Transcription transcription']\<rparr>)))
          else
            c\<lparr>worker := (worker c)\<lparr>control := Finished\<rparr>,
              emitted := emitted c @ [Summary (generate_summary lsa (worker c) transcription)]\<rparr>
      | _ \<Rightarrow> c)"

text \<open>
  What happens around one worker once it is started: the audio driver calls
  \<open>callback\<close> with a block, the worker makes one step of its loop, or its \<open>stop\<close>
  method is called.
\<close>

datatype event = Callback frame | Step | Stop

fun exec_event :: "'d recognizer \<Rightarrow> summarizer \<Rightarrow> 'd ctx \<Rightarrow> event \<Rightarrow> 'd ctx" where
  "exec_event vosk lsa c (Callback indata) = c\<lparr>queue := callback indata (queue c)\<rparr>"
| "exec_event vosk lsa c Step = run_step vosk lsa c"
| "exec_event vosk lsa c Stop = c\<lparr>worker := thread_stop (worker c)\<rparr>"

definition exec_events :: "'d recognizer \<Rightarrow> summarizer \<Rightarrow> 'd ctx \<Rightarrow> event list \<Rightarrow> 'd ctx" where
  "exec_events vosk lsa c es = foldl (exec_event vosk lsa) c es"

text \<open>The blocks the audio driver delivers during the events, in order.\<close>

fun frames_of :: "event list \<Rightarrow> frame list" where
  "frames_of [] = []"
| "frames_of (Callback indata # es) = indata # frames_of es"
| "frames_of (e # es) = frames_of es"

text \<open>A worker that has just been started, beside a queue and the emissions so far.\<close>

definition started :: "'d recognizer \<Rightarrow> frame list \<Rightarrow> notification list \<Rightarrow> 'd ctx" where
  "started vosk q sigs = \<lparr>worker = thread_start vosk new_thread, queue = q, emitted = sigs\<rparr>"

section \<open>The transcript as the specification describes it\<close>

text \<open>
  The finalized segments of a sequence of blocks: the recognizer is given the blocks in
  order and, at each one that finishes an utterance, the text of its result is the next
  segment. The value is \<open>None\<close> when the recognizer fails on a block; otherwise the
  segments and the recognizer's last state.
\<close>

fun segments :: "'d recognizer \<Rightarrow> 'd \<Rightarrow> frame list \<Rightarrow> (pystr list \<times> 'd) option" where
  "segments vosk d [] = Some ([], d)"
| "segments vosk d (data # rest) =
     (case AcceptWaveform vosk d data of
        None \<Rightarrow> None
      | Some (False, d') \<Rightarrow> segments vosk d' rest
      | Some (True, d') \<Rightarrow>
          (let (result, d'') = Result vosk d'
           in map_option (\<lambda>(segs, e). (dict_get result (str_of ''text'') [] # segs, e))
                (segments vosk d'' rest)))"

text \<open>The segments in order, each followed by one space.\<close>

definition transcript_of :: "pystr list \<Rightarrow> pystr" where
  "transcript_of segs = concat (map (\<lambda>seg. seg @ str_of '' '') segs)"

text \<open>One notification per segment, each carrying the transcript up to that segment.\<close>

definition notifications_of :: "pystr list \<Rightarrow> notification list" where
  "notifications_of segs =
     map (\<lambda>k. Transcription (transcript_of (take k segs))) [1..<Suc (length segs)]"

section \<open>The application\<close>

text \<open>
  A \<open>sounddevice.RawInputStream\<close>: constructed (the device is open), started,
  stopped, closed. \<open>stop\<close> and \<open>close\<close> are called with the library's default
  \<open>ignore_errors=True\<close>, so neither raises; \<open>stop\<close> changes an active stream only.
\<close>

datatype stream_state = Opened | Active | Stopped | Closed

fun stream_stop :: "stream_state \<Rightarrow> stream_state" where
  "stream_stop Active = Stopped"
| "stream_stop s = s"

text \<open>
  The state of the program. The stream and thread objects ever constructed live in two
  lists, and the attributes \<open>self.stream\<close> and \<open>self.audio_thread\<close> of the window
  hold an index into them, or \<open>None\<close> while the attribute has never been assigned.
  \<open>signals\<close> are the emissions of all workers (every worker is connected to the same
  two slots), of which the first \<open>delivered\<close> have reached their slot; the two output
  fields are the texts of the read-only widgets.
\<close>

record 'd world =
  audio_queue :: "frame list"
  streams :: "stream_state list"
  threads :: "'d thread list"
  signals :: "notification list"
  delivered :: nat
  stream :: "nat option"
  audio_thread :: "nat option"
  transcription_output :: pystr
  summary_output :: pystr

text \<open>The program once the window is built: nothing recorded, nothing started.\<close>

definition initial :: "'d world" where
  "initial = \<lparr>audio_queue = [], streams = [], threads = [], signals = [], delivered = 0,
     stream = None, audio_thread = None, transcription_output = [], summary_output = []\<rparr>"

text \<open>One step of the loop of thread \<open>i\<close>, on the global queue.\<close>

definition thread_step :: "'d recognizer \<Rightarrow> summarizer \<Rightarrow> nat \<Rightarrow> 'd world \<Rightarrow> 'd world" where
  "thread_step vosk lsa i w =
     (if i < length (threads w) then
        (let c = run_step vosk lsa
                   \<lparr>worker = threads w ! i, queue = audio_queue w, emitted = signals w\<rparr>
         in w\<lparr>audio_queue := queue c, threads := (threads w)[i := worker c],
              signals := emitted c\<rparr>)
      else w)"

text \<open>
  \<open>QThread.wait\<close>: the caller is blocked until thread \<open>i\<close> has left \<open>run\<close>. The
  value is \<open>None\<close> when that never happens.
\<close>

partial_function (option) thread_wait ::
  "'d recognizer \<Rightarrow> summarizer \<Rightarrow> nat \<Rightarrow> 'd world \<Rightarrow> 'd world option" where
  "thread_wait vosk lsa i w =
     (if i < length (threads w) \<and> isRunning (threads w ! i)
      then thread_wait vosk lsa i (thread_step vosk lsa i w)
      else Some w)"

declare thread_wait.simps [code]

text \<open>The two slots, and the event loop handing the oldest pending emission to its slot.\<close>

definition update_transcription :: "pystr \<Rightarrow> 'd world \<Rightarrow> 'd world" where
  "update_transcription text w = w\<lparr>transcription_output := text\<rparr>"

definition update_summary :: "pystr \<Rightarrow> 'd world \<Rightarrow> 'd world" where
  "update_summary summary w = w\<lparr>summary_output := summary\<rparr>"

definition deliver :: "'d world \<Rightarrow> 'd world" where
  "deliver w =
     (if delivered w < length (signals w) then
        (case signals w ! delivered w of
           Transcription text \<Rightarrow> update_transcription text (w\<lparr>delivered := Suc (delivered w)\<rparr>)
         | Summary summary \<Rightarrow> update_summary summary (w\<lparr>delivered := Suc (delivered w)\<rparr>))
      else w)"

text \<open>How a call of a method of the window ends, and the state it leaves.\<close>

datatype 'a outcome = Returned 'a | Raises exn 'a

text \<open>The text \<open>start_recording\<close> shows: U+1F3A4 and \<open>" Recording... Speak Now!"\<close>.\<close>

definition recording_banner :: pystr where
  "recording_banner = 127908 # str_of '' Recording... Speak Now!''"

text \<open>
  \<open>start_recording\<close>, statement by statement: the banner is shown; a new stream is
  constructed, assigned to \<open>self.stream\<close> and started; a new thread object is
  constructed, assigned to \<open>self.audio_thread\<close>, connected and started. Nothing is
  tested before any of it.
\<close>

definition start_recording :: "'d recognizer \<Rightarrow> 'd world \<Rightarrow> 'd world outcome" where
  "start_recording vosk w =
     (let w1 = w\<lparr>transcription_output := recording_banner\<rparr>;
          s = length (streams w1);
          w2 = w1\<lparr>streams := streams w1 @ [Opened], stream := Some s\<rparr>;
          w3 = w2\<lparr>streams := (streams w2)[s := Active]\<rparr>;
          t = length (threads w3);
          w4 = w3\<lparr>threads := threads w3 @ [new_thread], audio_thread := Some t\<rparr>;
          w5 = w4\<lparr>threads := (threads w4)[t := thread_start vosk (threads w4 ! t)]\<rparr>
      in Returned w5)"

text \<open>
  \<open>stop_recording\<close>: \<open>self.stream.stop()\<close> comes first and reads
  \<open>self.stream\<close>, which raises \<open>AttributeError\<close> while the attribute is
  unassigned. Otherwise the stream is stopped and closed, and a thread that exists and
  is running is told to stop and waited for (\<open>QThread.quit\<close> ends an event loop, and
  \<open>run\<close> has none). The value is \<open>None\<close> when the wait never ends.
\<close>

definition stop_recording ::
  "'d recognizer \<Rightarrow> summarizer \<Rightarrow> 'd world \<Rightarrow> 'd world outcome option" where
  "stop_recording vosk lsa w =
     (case stream w of
        None \<Rightarrow> Some (Raises AttributeError w)
      | Some s \<Rightarrow>
          (let w1 = w\<lparr>streams := (streams w)[s := stream_stop (streams w ! s)]\<rparr>;
               w2 = w1\<lparr>streams := (streams w1)[s := Closed]\<rparr>
           in case audio_thread w2 of
                None \<Rightarrow> Some (Returned w2)
              | Some t \<Rightarrow>
                  if isRunning (threads w2 ! t) then
                    (let w3 = w2\<lparr>threads := (threads w2)[t := thread_stop (threads w2 ! t)]\<rparr>
                     in map_option Returned (thread_wait vosk lsa t w3))
                  else Some (Returned w2)))"

text \<open>The state a call leaves, however it ends.\<close>

fun state_after :: "'a outcome \<Rightarrow> 'a" where
  "state_after (Returned w) = w"
| "state_after (Raises e w) = w"

section \<open>A recognizer and a summarizer to run the program on\<close>

text \<open>
  A small recognizer for concrete runs. Its state is the bytes heard since the last
  utterance; a block holding the byte 255 makes it fail, a block ending in the byte 0
  finishes the utterance, and the text of its result is the bytes heard.
\<close>

definition bytes_of :: "string \<Rightarrow> frame" where
  "bytes_of s = map of_char s"

definition demo_vosk :: "frame recognizer" where
  "demo_vosk = \<lparr>KaldiRecognizer = [],
     AcceptWaveform = (\<lambda>d data.
        if 255 \<in> set data then None
        else if data \<noteq> [] \<and> last data = 0 then Some (True, d @ butlast data)
        else Some (False, d @ data)),
     Result = (\<lambda>d. ([str_of ''text'' \<mapsto> map unat d], []))\<rparr>"

text \<open>A summarizer that returns the whole text as its one sentence.\<close>

definition demo_lsa :: summarizer where
  "demo_lsa text n = take n [text]"

text \<open>
  A session in progress: recording was started from the initial state, one block
  finishing the utterance \<open>hello\<close> arrived and was processed, and its notification
  reached the transcript display.
\<close>

definition demo_running :: "frame world" where
  "demo_running =
     (let w = state_after (start_recording demo_vosk initial);
          w = w\<lparr>audio_queue := callback (bytes_of ''hello'' @ [0]) (audio_queue w)\<rparr>;
          w = thread_step demo_vosk demo_lsa 0 w
      in deliver w)"

text \<open>
  That session, stopped: the state \<open>stop_recording\<close> leaves when called on
  \<open>demo_running\<close>.
\<close>

definition demo_stopped :: "frame world" where
  "demo_stopped =
     (case stop_recording demo_vosk demo_lsa demo_running of
        Some r \<Rightarrow> state_after r
      | None \<Rightarrow> demo_running)"

section \<open>When no session is active\<close>

text \<open>
  No session is active: every stream ever constructed is closed and no worker is
  running. (The window's two attributes, where assigned, refer to objects that exist.)
  This holds before the first \<open>start_recording\<close> and again once a session has been
  stopped.
\<close>

definition no_session :: "'d world \<Rightarrow> bool" where
  "no_session w \<longleftrightarrow>
     list_all (\<lambda>s. s = Closed) (streams w) \<and>
     list_all (\<lambda>t. \<not> isRunning t) (threads w) \<and>
     (case stream w of None \<Rightarrow> True | Some s \<Rightarrow> s < length (streams w)) \<and>
     (case audio_thread w of None \<Rightarrow> True | Some t \<Rightarrow> t < length (threads w))"

section \<open>Steps of the worker\<close>

lemma run_step_not_running: "\<not> isRunning (worker c) \<Longrightarrow> run_step vosk lsa c = c"
  by (simp add: run_step_def split: control.splits)

lemma run_step_exit:
  "control (worker c) = InRun d tr \<Longrightarrow> \<not> recording (worker c) \<Longrightarrow>
   run_step vosk lsa c =
     c\<lparr>worker := (worker c)\<lparr>control := Finished\<rparr>,
       emitted := emitted c @ [Summary (generate_summary lsa (worker c) tr)]\<rparr>"
  by (simp add: run_step_def)

lemma run_step_empty_queue:
  "control (worker c) = InRun d tr \<Longrightarrow> recording (worker c) \<Longrightarrow> queue c = [] \<Longrightarrow>
   run_step vosk lsa c = c"
  by (simp add: run_step_def)

lemma run_step_raise:
  "control (worker c) = InRun d tr \<Longrightarrow> recording (worker c) \<Longrightarrow> queue c = data # rest \<Longrightarrow>
   AcceptWaveform vosk d data = None \<Longrightarrow>
   run_step vosk lsa c = c\<lparr>queue := rest, worker := (worker c)\<lparr>control := Raised RecognizerError\<rparr>\<rparr>"
  by (simp add: run_step_def)

lemma run_step_partial:
  "control (worker c) = InRun d tr \<Longrightarrow> recording (worker c) \<Longrightarrow> queue c = data # rest \<Longrightarrow>
   AcceptWaveform vosk d data = Some (False, d') \<Longrightarrow>
   run_step vosk lsa c = c\<lparr>queue := rest, worker := (worker c)\<lparr>control := InRun d' tr\<rparr>\<rparr>"
  by (simp add: run_step_def)

lemma run_step_boundary:
  "control (worker c) = InRun d tr \<Longrightarrow> recording (worker c) \<Longrightarrow> queue c = data # rest \<Longrightarrow>
   AcceptWaveform vosk d data = Some (True, d') \<Longrightarrow> Result vosk d' = (result, d'') \<Longrightarrow>
   run_step vosk lsa c =
     c\<lparr>queue := rest,
       worker := (worker c)\<lparr>control :=
         InRun d'' (tr @ dict_get result (str_of ''text'') [] @ str_of '' '')\<rparr>,
       emitted := emitted c @
         [Transcription (tr @ dict_get result (str_of ''text'') [] @ str_of '' '')]\<rparr>"
  by (simp add: run_step_def Let_def)

lemma exec_events_snoc:
  "exec_events vosk lsa c (es @ [e]) = exec_event vosk lsa (exec_events vosk lsa c es) e"
  by (simp add: exec_events_def)

lemma exec_events_Cons:
  "exec_events vosk lsa c (e # es) = exec_events vosk lsa (exec_event vosk lsa c e) es"
  by (simp add: exec_events_def)

lemma exec_events_Nil: "exec_events vosk lsa c [] = c"
  by (simp add: exec_events_def)

lemma frames_of_append: "frames_of (es @ es') = frames_of es @ frames_of es'"
  by (induction es rule: frames_of.induct) simp_all

lemma thread_updates:
  "(t :: 'd thread)\<lparr>recording := a, control := b\<rparr> = \<lparr>recording = a, control = b\<rparr>"
  by (cases t) simp

section \<open>Properties of the summarizer\<close>

lemma split_fox:
  "split (str_of ''the quick brown fox'') = map str_of [''the'', ''quick'', ''brown'', ''fox'']"
  by (simp add: split_def str_of_def isspace_def)

text \<open>
  Claim C4. A text of fewer than ten words (as \<open>text.split()\<close> counts them) gets the
  fixed string \<open>Summary: Not enough data for summarization.\<close>, whatever the text is.
  The library summarizer \<open>lsa\<close> is arbitrary in the statement: the result does not
  depend on it, so it is not consulted.
\<close>

theorem generate_summary_insufficient:
  "length (split text) < 10 \<Longrightarrow>
     generate_summary lsa self text = str_of ''Summary: Not enough data for summarization.''"
  by (simp add: generate_summary_def)

text \<open>
  The four words of the specification's second scenario, with two different library
  summarizers.
\<close>

theorem generate_summary_insufficient_witness:
  "length (split (str_of ''the quick brown fox'')) = 4 \<and>
   generate_summary demo_lsa (new_thread :: frame thread) (str_of ''the quick brown fox'') =
     str_of ''Summary: Not enough data for summarization.'' \<and>
   generate_summary (\<lambda>text n. []) (new_thread :: frame thread) (str_of ''the quick brown fox'') =
     str_of ''Summary: Not enough data for summarization.''"
proof -
  have n: "length (split (str_of ''the quick brown fox'')) = 4"
    by (simp add: split_fox)
  then have less: "length (split (str_of ''the quick brown fox'')) < 10" by simp
  from generate_summary_insufficient [OF less, of demo_lsa "new_thread :: frame thread"]
    generate_summary_insufficient [OF less, of "\<lambda>text n. []" "new_thread :: frame thread"] n
  show ?thesis by simp
qed

text \<open>
  Claim C9. Every string \<open>generate_summary\<close> returns, on either branch, begins with
  \<open>Summary: \<close>.
\<close>

theorem generate_summary_prefix:
  "\<exists>rest. generate_summary lsa self text = str_of ''Summary: '' @ rest"
  by (simp add: generate_summary_def str_of_def)

text \<open>A text of ten words, on the branch that calls the library.\<close>

theorem generate_summary_prefix_witness:
  "\<exists>rest. generate_summary demo_lsa (new_thread :: frame thread)
             (str_of ''a b c d e f g h i j'') = str_of ''Summary: '' @ rest"
  by (rule generate_summary_prefix)

section \<open>The transcript\<close>

text \<open>
  Claim C10. When the block taken from the queue finishes an utterance whose text is
  empty (or whose result has no \<open>text\<close> key), the worker still appends one space to
  the transcript and still emits a transcript notification.
\<close>

theorem run_step_empty_text:
  assumes "control (worker c) = InRun d tr" and "recording (worker c)"
    and "queue c = data # rest"
    and "AcceptWaveform vosk d data = Some (True, d')"
    and "Result vosk d' = (result, d'')"
    and "dict_get result (str_of ''text'') [] = []"
  shows "run_step vosk lsa c =
           c\<lparr>queue := rest,
             worker := (worker c)\<lparr>control := InRun d'' (tr @ str_of '' '')\<rparr>,
             emitted := emitted c @ [Transcription (tr @ str_of '' '')]\<rparr>"
  using run_step_boundary [OF assms(1-5)] assms(6) by simp

text \<open>
  A transcript ending in a space, and a block that finishes an empty utterance: the
  transcript then ends in two spaces, and the notification carries it.
\<close>

theorem run_step_empty_text_witness:
  "run_step demo_vosk demo_lsa
     \<lparr>worker = \<lparr>recording = True, control = InRun [] (str_of ''hi '')\<rparr>,
      queue = [[0]], emitted = []\<rparr> =
   \<lparr>worker = \<lparr>recording = True, control = InRun [] (str_of ''hi  '')\<rparr>,
    queue = [], emitted = [Transcription (str_of ''hi  '')]\<rparr>"
proof -
  let ?c = "\<lparr>worker = \<lparr>recording = True, control = InRun ([] :: frame) (str_of ''hi '')\<rparr>,
             queue = [[0]], emitted = []\<rparr>"
  have h1: "control (worker ?c) = InRun [] (str_of ''hi '')" by simp
  have h2: "recording (worker ?c)" by simp
  have h3: "queue ?c = [0] # []" by simp
  have h4: "AcceptWaveform demo_vosk [] [0] = Some (True, [])" by (simp add: demo_vosk_def)
  have h5: "Result demo_vosk [] = ([str_of ''text'' \<mapsto> []], [])" by (simp add: demo_vosk_def)
  have h6: "dict_get [str_of ''text'' \<mapsto> []] (str_of ''text'') [] = []"
    by (simp add: dict_get_def)
  from run_step_empty_text [OF h1 h2 h3 h4 h5 h6, of demo_lsa] show ?thesis
    by (simp add: str_of_def)
qed

lemma segments_snoc:
  "segments vosk d0 (fs @ [f]) =
     (case segments vosk d0 fs of
        None \<Rightarrow> None
      | Some (segs, d) \<Rightarrow>
          (case AcceptWaveform vosk d f of
             None \<Rightarrow> None
           | Some (False, d') \<Rightarrow> Some (segs, d')
           | Some (True, d') \<Rightarrow>
               (let (result, d'') = Result vosk d'
                in Some (segs @ [dict_get result (str_of ''text'') []], d''))))"
proof (induction fs arbitrary: d0)
  case Nil
  show ?case by (simp split: option.splits bool.splits prod.splits)
next
  case (Cons a fs)
  show ?case
    by (simp add: Cons.IH split: option.splits bool.splits prod.splits)
qed

lemma transcript_of_snoc:
  "transcript_of (segs @ [s]) = transcript_of segs @ s @ str_of '' ''"
  by (simp add: transcript_of_def)

lemma notifications_of_snoc:
  "notifications_of (segs @ [s]) =
     notifications_of segs @ [Transcription (transcript_of (segs @ [s]))]"
  by (auto simp: notifications_of_def)

lemma run_step_invariant:
  assumes after: "control (worker (run_step vosk lsa c)) = InRun d tr"
    and before: "\<And>d0 tr0. control (worker c) = InRun d0 tr0 \<Longrightarrow>
       \<exists>consumed segs. fs = consumed @ queue c \<and>
          segments vosk k consumed = Some (segs, d0) \<and> tr0 = transcript_of segs \<and>
          emitted c = sigs @ notifications_of segs"
  shows "\<exists>consumed segs. fs = consumed @ queue (run_step vosk lsa c) \<and>
          segments vosk k consumed = Some (segs, d) \<and> tr = transcript_of segs \<and>
          emitted (run_step vosk lsa c) = sigs @ notifications_of segs"
proof (cases "control (worker c)")
  case (InRun d0 tr0)
  from before [OF InRun] obtain consumed segs where
    fs: "fs = consumed @ queue c" and
    segs: "segments vosk k consumed = Some (segs, d0)" and
    tr0: "tr0 = transcript_of segs" and
    em: "emitted c = sigs @ notifications_of segs"
    by blast
  show ?thesis
  proof (cases "recording (worker c)")
    case False
    with InRun after show ?thesis by (simp add: run_step_exit)
  next
    case True
    show ?thesis
    proof (cases "queue c")
      case Nil
      with InRun True have "run_step vosk lsa c = c" by (simp add: run_step_empty_queue)
      with after InRun fs segs tr0 em show ?thesis by auto
    next
      case (Cons data rest)
      show ?thesis
      proof (cases "AcceptWaveform vosk d0 data")
        case None
        with InRun True Cons after show ?thesis by (simp add: run_step_raise)
      next
        case (Some r)
        obtain b d' where r: "r = (b, d')" by (cases r)
        show ?thesis
        proof (cases b)
          case False
          with Some r have acc: "AcceptWaveform vosk d0 data = Some (False, d')" by simp
          note step = run_step_partial [OF InRun True Cons acc, of lsa]
          from after step have "d = d'" "tr = tr0" by simp_all
          moreover have "fs = (consumed @ [data]) @ rest" using fs Cons by simp
          moreover have "segments vosk k (consumed @ [data]) = Some (segs, d')"
            by (simp add: segments_snoc segs acc)
          ultimately show ?thesis using step tr0 em by auto
        next
          case True': True
          with Some r have acc: "AcceptWaveform vosk d0 data = Some (True, d')" by simp
          obtain result d'' where res: "Result vosk d' = (result, d'')"
            by (cases "Result vosk d'")
          let ?text = "dict_get result (str_of ''text'') []"
          note step = run_step_boundary [OF InRun True Cons acc res, of lsa]
          from after step have "d = d''" "tr = tr0 @ ?text @ str_of '' ''" by simp_all
          moreover have "fs = (consumed @ [data]) @ rest" using fs Cons by simp
          moreover have "segments vosk k (consumed @ [data]) = Some (segs @ [?text], d'')"
            by (simp add: segments_snoc segs acc res)
          moreover have "tr0 @ ?text @ str_of '' '' = transcript_of (segs @ [?text])"
            by (simp add: transcript_of_snoc tr0)
          ultimately show ?thesis
            using step em by (auto simp: notifications_of_snoc)
        qed
      qed
    qed
  qed
next
  case Created
  then have "run_step vosk lsa c = c" by (simp add: run_step_not_running)
  with after Created show ?thesis by simp
next
  case Finished
  then have "run_step vosk lsa c = c" by (simp add: run_step_not_running)
  with after Finished show ?thesis by simp
next
  case (Raised e)
  then have "run_step vosk lsa c = c" by (simp add: run_step_not_running)
  with after Raised show ?thesis by simp
qed

text \<open>
  Claim C6. Take a worker just started beside a queue \<open>q\<close>, and any sequence of
  events (blocks arriving, loop steps, stop requests). While the worker is still inside
  \<open>run\<close>, the blocks it has consumed are a prefix of the blocks queued, in order; its
  transcript is the segments of the consumed blocks in production order, each followed
  by one space; and it has emitted exactly one transcript notification per segment.
\<close>

theorem transcript_is_segments_joined:
  assumes "control (worker (exec_events vosk lsa (started vosk q sigs) es)) = InRun d tr"
  shows "\<exists>consumed segs.
           q @ frames_of es = consumed @ queue (exec_events vosk lsa (started vosk q sigs) es) \<and>
           segments vosk (KaldiRecognizer vosk) consumed = Some (segs, d) \<and>
           tr = transcript_of segs \<and>
           emitted (exec_events vosk lsa (started vosk q sigs) es) = sigs @ notifications_of segs"
  using assms
proof (induction es arbitrary: d tr rule: rev_induct)
  case Nil
  then show ?case
    by (simp add: exec_events_def started_def thread_start_def new_thread_def
        notifications_of_def transcript_of_def)
next
  case (snoc e es)
  let ?c = "exec_events vosk lsa (started vosk q sigs) es"
  show ?case
  proof (cases e)
    case (Callback indata)
    with snoc.prems have "control (worker ?c) = InRun d tr"
      by (simp add: exec_events_snoc)
    from snoc.IH [OF this] Callback show ?thesis
      by (auto simp: exec_events_snoc frames_of_append callback_def)
  next
    case Stop
    with snoc.prems have "control (worker ?c) = InRun d tr"
      by (simp add: exec_events_snoc thread_stop_def)
    from snoc.IH [OF this] Stop show ?thesis
      by (auto simp: exec_events_snoc frames_of_append)
  next
    case Step
    with snoc.prems have after: "control (worker (run_step vosk lsa ?c)) = InRun d tr"
      by (simp add: exec_events_snoc)
    from run_step_invariant [OF after snoc.IH] Step show ?thesis
      by (simp add: exec_events_snoc frames_of_append)
  qed
qed

lemma demo_scenario:
  "exec_events demo_vosk demo_lsa (started demo_vosk [] [])
     [Callback (bytes_of ''hello ''), Callback (bytes_of ''world'' @ [0]), Step,
      Callback (bytes_of ''this is a test'' @ [0]), Step, Step] =
   \<lparr>worker = \<lparr>recording = True,
                control = InRun [] (str_of ''hello world this is a test '')\<rparr>,
    queue = [],
    emitted = [Transcription (str_of ''hello world ''),
               Transcription (str_of ''hello world this is a test '')]\<rparr>"
  by (simp add: exec_events_def started_def thread_start_def new_thread_def callback_def
      run_step_def Let_def demo_vosk_def bytes_of_def dict_get_def str_of_def)

text \<open>
  The specification's first scenario: three blocks, of which the second and the third
  finish the utterances \<open>hello world\<close> and \<open>this is a test\<close>. The transcript is
  \<open>hello world this is a test \<close> and two notifications are emitted.
\<close>

theorem transcript_is_segments_joined_witness:
  "control (worker (exec_events demo_vosk demo_lsa (started demo_vosk [] [])
     [Callback (bytes_of ''hello ''), Callback (bytes_of ''world'' @ [0]), Step,
      Callback (bytes_of ''this is a test'' @ [0]), Step, Step])) =
     InRun [] (str_of ''hello world this is a test '') \<and>
   emitted (exec_events demo_vosk demo_lsa (started demo_vosk [] [])
     [Callback (bytes_of ''hello ''), Callback (bytes_of ''world'' @ [0]), Step,
      Callback (bytes_of ''this is a test'' @ [0]), Step, Step]) =
     [Transcription (str_of ''hello world ''),
      Transcription (str_of ''hello world this is a test '')] \<and>
   segments demo_vosk []
     [bytes_of ''hello '', bytes_of ''world'' @ [0], bytes_of ''this is a test'' @ [0]] =
     Some ([str_of ''hello world'', str_of ''this is a test''], []) \<and>
   transcript_of [str_of ''hello world'', str_of ''this is a test''] =
     str_of ''hello world this is a test '' \<and>
   notifications_of [str_of ''hello world'', str_of ''this is a test''] =
     [Transcription (str_of ''hello world ''),
      Transcription (str_of ''hello world this is a test '')]"
proof -
  let ?es = "[Callback (bytes_of ''hello ''), Callback (bytes_of ''world'' @ [0]), Step,
      Callback (bytes_of ''this is a test'' @ [0]), Step, Step]"
  let ?fs = "[bytes_of ''hello '', bytes_of ''world'' @ [0], bytes_of ''this is a test'' @ [0]]"
  let ?segs = "[str_of ''hello world'', str_of ''this is a test'']"
  have run: "control (worker (exec_events demo_vosk demo_lsa (started demo_vosk [] []) ?es)) =
     InRun [] (str_of ''hello world this is a test '')"
    by (simp add: demo_scenario)
  have segs: "segments demo_vosk [] ?fs = Some (?segs, [])"
    by (simp add: demo_vosk_def bytes_of_def dict_get_def str_of_def)
  from transcript_is_segments_joined [OF run] obtain consumed segs' where
    c: "[] @ frames_of ?es =
          consumed @ queue (exec_events demo_vosk demo_lsa (started demo_vosk [] []) ?es)" and
    s: "segments demo_vosk (KaldiRecognizer demo_vosk) consumed = Some (segs', [])" and
    t: "str_of ''hello world this is a test '' = transcript_of segs'" and
    n: "emitted (exec_events demo_vosk demo_lsa (started demo_vosk [] []) ?es) =
          [] @ notifications_of segs'"
    by blast
  from c have "consumed = ?fs" by (simp add: demo_scenario)
  with s segs have "segs' = ?segs" by (simp add: demo_vosk_def)
  with t n run segs show ?thesis by (simp add: demo_scenario)
qed

section \<open>A decode error\<close>

lemma raised_stays_raised:
  "control (worker c) = Raised e \<Longrightarrow>
   control (worker (exec_events vosk lsa c es)) = Raised e \<and>
   queue (exec_events vosk lsa c es) = queue c @ frames_of es \<and>
   emitted (exec_events vosk lsa c es) = emitted c"
proof (induction es arbitrary: c)
  case Nil
  then show ?case by (simp add: exec_events_Nil)
next
  case (Cons ev es)
  show ?case
  proof (cases ev)
    case (Callback indata)
    with Cons.prems Cons.IH [of "exec_event vosk lsa c ev"] show ?thesis
      by (simp add: exec_events_Cons callback_def)
  next
    case Step
    from Cons.prems have "run_step vosk lsa c = c" by (simp add: run_step_not_running)
    with Step Cons.prems Cons.IH [of c] show ?thesis
      by (simp add: exec_events_Cons)
  next
    case Stop
    with Cons.prems Cons.IH [of "exec_event vosk lsa c ev"] show ?thesis
      by (simp add: exec_events_Cons thread_stop_def)
  qed
qed

text \<open>
  Claim C3, as amended. When \<open>AcceptWaveform\<close> raises on the block at the head of the
  queue, nothing catches the exception and it ends the worker's \<open>run\<close>: the block
  has been taken from the queue, and what was emitted before stays emitted. From then
  on that worker takes no block from the queue and emits nothing, neither a transcript
  nor a summary, whatever blocks arrive, however many steps it is given and whether or
  not it is told to stop: the blocks after the failing one are left in the queue, not
  processed by it.
\<close>

theorem decode_error_ends_run:
  assumes "control (worker c) = InRun d tr" and "recording (worker c)"
    and "queue c = data # rest" and "AcceptWaveform vosk d data = None"
  shows "control (worker (exec_events vosk lsa c (Step # es))) = Raised RecognizerError \<and>
         queue (exec_events vosk lsa c (Step # es)) = rest @ frames_of es \<and>
         emitted (exec_events vosk lsa c (Step # es)) = emitted c"
proof -
  let ?c = "c\<lparr>queue := rest, worker := (worker c)\<lparr>control := Raised RecognizerError\<rparr>\<rparr>"
  have "exec_events vosk lsa c (Step # es) = exec_events vosk lsa ?c es"
    by (simp add: exec_events_Cons run_step_raise [OF assms])
  moreover have "control (worker ?c) = Raised RecognizerError" by simp
  from raised_stays_raised [OF this, of vosk lsa es]
  have "control (worker (exec_events vosk lsa ?c es)) = Raised RecognizerError \<and>
        queue (exec_events vosk lsa ?c es) = rest @ frames_of es \<and>
        emitted (exec_events vosk lsa ?c es) = emitted c"
    by simp
  ultimately show ?thesis by simp
qed

text \<open>
  A worker that has transcribed \<open>hello\<close>, with a failing block and then a good one
  in the queue.
\<close>

theorem decode_error_ends_run_witness:
  "control (worker (exec_events demo_vosk demo_lsa
     \<lparr>worker = \<lparr>recording = True, control = InRun [] (str_of ''hello '')\<rparr>,
      queue = [[255], bytes_of ''world'' @ [0]],
      emitted = [Transcription (str_of ''hello '')]\<rparr>
     [Step, Step, Stop, Step])) = Raised RecognizerError \<and>
   queue (exec_events demo_vosk demo_lsa
     \<lparr>worker = \<lparr>recording = True, control = InRun [] (str_of ''hello '')\<rparr>,
      queue = [[255], bytes_of ''world'' @ [0]],
      emitted = [Transcription (str_of ''hello '')]\<rparr>
     [Step, Step, Stop, Step]) = [bytes_of ''world'' @ [0]] \<and>
   emitted (exec_events demo_vosk demo_lsa
     \<lparr>worker = \<lparr>recording = True, control = InRun [] (str_of ''hello '')\<rparr>,
      queue = [[255], bytes_of ''world'' @ [0]],
      emitted = [Transcription (str_of ''hello '')]\<rparr>
     [Step, Step, Stop, Step]) = [Transcription (str_of ''hello '')]"
proof -
  let ?c = "\<lparr>worker = \<lparr>recording = True, control = InRun ([] :: frame) (str_of ''hello '')\<rparr>,
      queue = [[255], bytes_of ''world'' @ [0]],
      emitted = [Transcription (str_of ''hello '')]\<rparr>"
  have h1: "control (worker ?c) = InRun [] (str_of ''hello '')" by simp
  have h2: "recording (worker ?c)" by simp
  have h3: "queue ?c = [255] # [bytes_of ''world'' @ [0]]" by simp
  have h4: "AcceptWaveform demo_vosk [] [255] = None" by (simp add: demo_vosk_def)
  from decode_error_ends_run [OF h1 h2 h3 h4, of demo_lsa "[Step, Stop, Step]"]
  show ?thesis by simp
qed

text \<open>
  Claim C3 as stated fails: with a good block, a failing block and another good block in
  the queue, the worker ends on the failing one; it never processes the third block,
  whose segment it never appends, and stopping it yields no summary.
\<close>

theorem decode_error_ends_run_counterexample:
  "exec_events demo_vosk demo_lsa
     (started demo_vosk [bytes_of ''hello'' @ [0], [255], bytes_of ''world'' @ [0]] [])
     [Step, Step, Step, Step, Stop, Step] =
   \<lparr>worker = \<lparr>recording = False, control = Raised RecognizerError\<rparr>,
    queue = [bytes_of ''world'' @ [0]],
    emitted = [Transcription (str_of ''hello '')]\<rparr>"
  by (simp add: exec_events_def started_def thread_start_def new_thread_def thread_stop_def
      run_step_def Let_def demo_vosk_def bytes_of_def dict_get_def str_of_def)

section \<open>Starting and stopping\<close>

lemma demo_running_eq:
  "demo_running = \<lparr>audio_queue = [], streams = [Active],
     threads = [\<lparr>recording = True, control = InRun [] (str_of ''hello '')\<rparr>],
     signals = [Transcription (str_of ''hello '')], delivered = 1,
     stream = Some 0, audio_thread = Some 0,
     transcription_output = str_of ''hello '', summary_output = []\<rparr>"
  by (simp add: demo_running_def start_recording_def initial_def Let_def new_thread_def
      thread_start_def callback_def thread_step_def run_step_def demo_vosk_def bytes_of_def
      deliver_def update_transcription_def dict_get_def str_of_def)

text \<open>
  Claim C2, as amended. \<open>start_recording\<close> called while a session is running does
  not fail: it opens and starts a second stream and a second worker whose transcript is
  empty, and makes them the window's current ones. The earlier stream stays active and
  the earlier worker keeps running with its transcript as it was; the queue and the
  emissions are untouched, and the transcript display is overwritten with the banner.
\<close>

theorem start_recording_while_running:
  assumes "audio_thread w = Some t" and "t < length (threads w)"
    and "isRunning (threads w ! t)"
    and "stream w = Some s" and "s < length (streams w)" and "streams w ! s = Active"
  shows "\<exists>w'. start_recording vosk w = Returned w' \<and>
           streams w' = streams w @ [Active] \<and> stream w' = Some (length (streams w)) \<and>
           threads w' = threads w @
             [\<lparr>recording = True, control = InRun (KaldiRecognizer vosk) []\<rparr>] \<and>
           audio_thread w' = Some (length (threads w)) \<and>
           streams w' ! s = Active \<and> threads w' ! t = threads w ! t \<and>
           transcription_output w' = recording_banner \<and>
           audio_queue w' = audio_queue w \<and> signals w' = signals w"
  using assms
  by (simp add: start_recording_def Let_def new_thread_def thread_start_def nth_append)

text \<open>The running session \<open>demo_running\<close>, started a second time.\<close>

theorem start_recording_while_running_witness:
  "isRunning (threads demo_running ! 0) \<and> streams demo_running ! 0 = Active \<and>
   (\<exists>w'. start_recording demo_vosk demo_running = Returned w' \<and>
      streams w' = [Active, Active] \<and> stream w' = Some 1 \<and>
      threads w' = [\<lparr>recording = True, control = InRun [] (str_of ''hello '')\<rparr>,
                    \<lparr>recording = True, control = InRun [] []\<rparr>] \<and>
      audio_thread w' = Some 1 \<and> transcription_output w' = recording_banner)"
proof -
  have h: "audio_thread demo_running = Some 0" "0 < length (threads demo_running)"
    "isRunning (threads demo_running ! 0)"
    "stream demo_running = Some 0" "0 < length (streams demo_running)"
    "streams demo_running ! 0 = Active"
    by (simp_all add: demo_running_eq)
  from start_recording_while_running [OF h, of demo_vosk] h(3,6) show ?thesis
    by (auto simp: demo_running_eq demo_vosk_def)
qed

text \<open>
  Claim C2 as stated fails: on the running session the call returns instead of failing
  with \<open>AlreadyRunningError\<close>, two streams are active and two workers are running
  afterwards, and the display no longer shows the transcript.
\<close>

theorem start_recording_while_running_counterexample:
  "start_recording demo_vosk demo_running \<noteq>
     Raises AlreadyRunningError (state_after (start_recording demo_vosk demo_running)) \<and>
   start_recording demo_vosk demo_running =
     Returned (demo_running\<lparr>streams := [Active, Active], stream := Some 1,
        threads := [\<lparr>recording = True, control = InRun [] (str_of ''hello '')\<rparr>,
                    \<lparr>recording = True, control = InRun [] []\<rparr>],
        audio_thread := Some 1, transcription_output := recording_banner\<rparr>)"
  by (simp add: demo_running_eq start_recording_def Let_def new_thread_def thread_start_def
      demo_vosk_def)

lemma thread_step_finished:
  "t < length (threads w) \<Longrightarrow> \<not> isRunning (threads w ! t) \<Longrightarrow> thread_step vosk lsa t w = w"
  by (simp add: thread_step_def run_step_not_running)

lemma thread_wait_not_running:
  "t < length (threads w) \<Longrightarrow> \<not> isRunning (threads w ! t) \<Longrightarrow> thread_wait vosk lsa t w = Some w"
  by (subst thread_wait.simps) simp

lemma thread_wait_stopped:
  assumes "t < length (threads w)" and "control (threads w ! t) = InRun d tr"
    and "\<not> recording (threads w ! t)"
  shows "thread_wait vosk lsa t w =
           Some (w\<lparr>threads := (threads w)[t := (threads w ! t)\<lparr>control := Finished\<rparr>],
                   signals := signals w @ [Summary (generate_summary lsa (threads w ! t) tr)]\<rparr>)"
proof -
  let ?w' = "w\<lparr>threads := (threads w)[t := (threads w ! t)\<lparr>control := Finished\<rparr>],
               signals := signals w @ [Summary (generate_summary lsa (threads w ! t) tr)]\<rparr>"
  have step: "thread_step vosk lsa t w = ?w'"
    using assms by (simp add: thread_step_def run_step_exit)
  have "thread_wait vosk lsa t w = thread_wait vosk lsa t ?w'"
    using assms step by (subst thread_wait.simps) simp
  also have "\<dots> = Some ?w'"
    using assms by (intro thread_wait_not_running) simp_all
  finally show ?thesis .
qed

lemma demo_stopped_eq:
  "demo_stopped = \<lparr>audio_queue = [], streams = [Closed],
     threads = [\<lparr>recording = False, control = Finished\<rparr>],
     signals = [Transcription (str_of ''hello ''),
       Summary (str_of ''Summary: Not enough data for summarization.'')],
     delivered = 1, stream = Some 0, audio_thread = Some 0,
     transcription_output = str_of ''hello '', summary_output = []\<rparr>"
proof -
  have h: "stream demo_running = Some 0" "audio_thread demo_running = Some 0"
    "0 < length (threads demo_running)"
    "control (threads demo_running ! 0) = InRun [] (str_of ''hello '')"
    "\<not> recording (thread_stop (threads demo_running ! 0))"
    by (simp_all add: demo_running_eq thread_stop_def)
  let ?w3 = "demo_running\<lparr>streams := [Closed],
     threads := [thread_stop (threads demo_running ! 0)]\<rparr>"
  have "thread_wait demo_vosk demo_lsa 0 ?w3 =
     Some (?w3\<lparr>threads := (threads ?w3)[0 := (threads ?w3 ! 0)\<lparr>control := Finished\<rparr>],
       signals := signals ?w3 @
         [Summary (generate_summary demo_lsa (threads ?w3 ! 0) (str_of ''hello ''))]\<rparr>)"
    by (rule thread_wait_stopped) (simp_all add: demo_running_eq thread_stop_def)
  moreover have "generate_summary demo_lsa (threads ?w3 ! 0) (str_of ''hello '') =
     str_of ''Summary: Not enough data for summarization.''"
    by (simp add: generate_summary_def split_def str_of_def isspace_def)
  ultimately have "stop_recording demo_vosk demo_lsa demo_running =
     Some (Returned \<lparr>audio_queue = [], streams = [Closed],
     threads = [\<lparr>recording = False, control = Finished\<rparr>],
     signals = [Transcription (str_of ''hello ''),
       Summary (str_of ''Summary: Not enough data for summarization.'')],
     delivered = 1, stream = Some 0, audio_thread = Some 0,
     transcription_output = str_of ''hello '', summary_output = []\<rparr>)"
    by (simp add: stop_recording_def Let_def demo_running_eq thread_stop_def)
  then show ?thesis by (simp add: demo_stopped_def)
qed

text \<open>
  Claim C1, as amended. When no session is active (recording was never started, or was
  started and stopped), \<open>stop_recording\<close> ends without \<open>NotRunningError\<close>, which
  no statement of the source raises, and changes nothing: afterwards every stream is
  still closed and no worker is running. After a session that was stopped the call
  returns normally. How the call ends when recording was never started is left open
  here.
\<close>

theorem stop_recording_no_session:
  assumes "no_session w"
  shows "\<exists>r. stop_recording vosk lsa w = Some r \<and> state_after r = w \<and>
           r \<noteq> Raises NotRunningError w \<and>
           (stream w \<noteq> None \<longrightarrow> r = Returned w) \<and>
           list_all (\<lambda>s. s = Closed) (streams (state_after r)) \<and>
           list_all (\<lambda>t. \<not> isRunning t) (threads (state_after r))"
proof -
  from assms have closed: "list_all (\<lambda>s. s = Closed) (streams w)"
    and idle: "list_all (\<lambda>t. \<not> isRunning t) (threads w)"
    by (simp_all add: no_session_def)
  show ?thesis
  proof (cases "stream w")
    case None
    with closed idle show ?thesis by (simp add: stop_recording_def)
  next
    case (Some s)
    with assms have "s < length (streams w)" by (simp add: no_session_def)
    with closed have "streams w ! s = Closed" by (simp add: list_all_length)
    then have "(streams w)[s := Closed] = streams w"
      by (metis list_update_id)
    then have same: "w\<lparr>streams := (streams w)[s := Closed]\<rparr> = w" by simp
    show ?thesis
    proof (cases "audio_thread w")
      case None
      with Some same closed idle show ?thesis by (simp add: stop_recording_def Let_def)
    next
      case t: (Some t)
      with assms have "t < length (threads w)" by (simp add: no_session_def)
      with idle have "\<not> isRunning (threads w ! t)" by (simp add: list_all_length)
      with Some t same closed idle show ?thesis by (simp add: stop_recording_def Let_def)
    qed
  qed
qed

text \<open>A stopped session, and the program right after the window is built.\<close>

theorem stop_recording_no_session_witness:
  "no_session demo_stopped \<and>
   stop_recording demo_vosk demo_lsa demo_stopped = Some (Returned demo_stopped) \<and>
   no_session (initial :: frame world) \<and>
   (\<exists>r. stop_recording demo_vosk demo_lsa (initial :: frame world) = Some r \<and>
      state_after r = initial \<and> r \<noteq> Raises NotRunningError initial)"
proof -
  have a: "no_session demo_stopped"
    by (simp add: no_session_def demo_stopped_eq)
  have b: "no_session (initial :: frame world)"
    by (simp add: no_session_def initial_def)
  have c: "stream demo_stopped \<noteq> None" by (simp add: demo_stopped_eq)
  from stop_recording_no_session [OF a, of demo_vosk demo_lsa] c
  have "stop_recording demo_vosk demo_lsa demo_stopped = Some (Returned demo_stopped)"
    by auto
  moreover from stop_recording_no_session [OF b, of demo_vosk demo_lsa]
  have "\<exists>r. stop_recording demo_vosk demo_lsa (initial :: frame world) = Some r \<and>
      state_after r = initial \<and> r \<noteq> Raises NotRunningError initial"
    by blast
  ultimately show ?thesis using a b by blast
qed

text \<open>
  Claim C1 as stated fails: on the stopped session \<open>demo_stopped\<close> the call returns
  instead of failing, and in the initial state it ends with \<open>AttributeError\<close>, not
  with \<open>NotRunningError\<close>.
\<close>

theorem stop_recording_no_session_counterexample:
  "no_session demo_stopped \<and>
   stop_recording demo_vosk demo_lsa demo_stopped = Some (Returned demo_stopped) \<and>
   no_session (initial :: frame world) \<and>
   stop_recording demo_vosk demo_lsa (initial :: frame world) =
     Some (Raises AttributeError initial) \<and>
   Raises AttributeError (initial :: frame world) \<noteq> Raises NotRunningError initial"
  by (simp add: no_session_def demo_stopped_eq stop_recording_def Let_def initial_def)

text \<open>
  Claim C7. When \<open>stop_recording\<close> is called while the current worker is inside
  \<open>run\<close>, the call returns: the stream is closed, the worker's flag is false, the
  worker has left its loop and emitted exactly one summary notification, computed from
  its final transcript, and it has finished. A further step of that worker changes
  nothing, and \<open>start_recording\<close> then begins a new running cycle with an empty
  transcript.
\<close>

theorem stop_recording_emits_summary:
  assumes "stream w = Some s" and "audio_thread w = Some t" and "t < length (threads w)"
    and "control (threads w ! t) = InRun d tr"
  shows "\<exists>w'. stop_recording vosk lsa w = Some (Returned w') \<and>
           w' = w\<lparr>streams := (streams w)[s := Closed],
                  threads := (threads w)[t := \<lparr>recording = False, control = Finished\<rparr>],
                  signals := signals w @ [Summary (generate_summary lsa (threads w ! t) tr)]\<rparr> \<and>
           thread_step vosk lsa t w' = w' \<and>
           (\<exists>w''. start_recording vosk w' = Returned w'' \<and>
              audio_thread w'' = Some (length (threads w)) \<and>
              threads w'' ! length (threads w) =
                \<lparr>recording = True, control = InRun (KaldiRecognizer vosk) []\<rparr>)"
proof -
  let ?w2 = "w\<lparr>streams := (streams w)[s := Closed]\<rparr>"
  let ?w3 = "?w2\<lparr>threads := (threads w)[t := thread_stop (threads w ! t)]\<rparr>"
  let ?w' = "w\<lparr>streams := (streams w)[s := Closed],
                threads := (threads w)[t := \<lparr>recording = False, control = Finished\<rparr>],
                signals := signals w @ [Summary (generate_summary lsa (threads w ! t) tr)]\<rparr>"
  have "thread_wait vosk lsa t ?w3 =
          Some (?w3\<lparr>threads := (threads ?w3)[t := (threads ?w3 ! t)\<lparr>control := Finished\<rparr>],
             signals := signals ?w3 @ [Summary (generate_summary lsa (threads ?w3 ! t) tr)]\<rparr>)"
    using assms by (intro thread_wait_stopped) (simp_all add: thread_stop_def)
  also have "\<dots> = Some ?w'"
  proof -
    have "generate_summary lsa (thread_stop (threads w ! t)) tr =
          generate_summary lsa (threads w ! t) tr"
      by (simp add: generate_summary_def)
    then show ?thesis using assms by (simp add: thread_stop_def thread_updates)
  qed
  finally have wait: "thread_wait vosk lsa t ?w3 = Some ?w'" .
  have stop: "stop_recording vosk lsa w = Some (Returned ?w')"
    using assms wait by (simp add: stop_recording_def Let_def)
  have idle: "thread_step vosk lsa t ?w' = ?w'"
    using assms by (intro thread_step_finished) simp_all
  have again: "\<exists>w''. start_recording vosk ?w' = Returned w'' \<and>
              audio_thread w'' = Some (length (threads w)) \<and>
              threads w'' ! length (threads w) =
                \<lparr>recording = True, control = InRun (KaldiRecognizer vosk) []\<rparr>"
    by (simp add: start_recording_def Let_def new_thread_def thread_start_def nth_append)
  from stop idle again show ?thesis by blast
qed

text \<open>The running session \<open>demo_running\<close>, stopped.\<close>

theorem stop_recording_emits_summary_witness:
  "control (threads demo_running ! 0) = InRun [] (str_of ''hello '') \<and>
   stop_recording demo_vosk demo_lsa demo_running =
     Some (Returned (demo_running\<lparr>streams := [Closed],
        threads := [\<lparr>recording = False, control = Finished\<rparr>],
        signals := [Transcription (str_of ''hello ''),
          Summary (str_of ''Summary: Not enough data for summarization.'')]\<rparr>))"
proof -
  have h: "stream demo_running = Some 0" "audio_thread demo_running = Some 0"
    "0 < length (threads demo_running)"
    "control (threads demo_running ! 0) = InRun [] (str_of ''hello '')"
    by (simp_all add: demo_running_eq)
  have "generate_summary demo_lsa (threads demo_running ! 0) (str_of ''hello '') =
          str_of ''Summary: Not enough data for summarization.''"
    by (simp add: generate_summary_def split_def str_of_def isspace_def)
  with stop_recording_emits_summary [OF h, of demo_vosk demo_lsa] h(4) show ?thesis
    by (auto simp: demo_running_eq)
qed

end
